theory Spec2Isabelle
  imports Complex_Main
begin

section \<open>The idle transaction of the tracing package\<close>

text \<open>
  The development embeds \<^verbatim>\<open>idletransaction.ts\<close>: the class
  \<^verbatim>\<open>IdleTransactionSpanRecorder\<close> and the class \<^verbatim>\<open>IdleTransaction\<close>
  with its heartbeat, its activity bookkeeping and its finish path.

  Conventions of the embedding.
  \<^item> Timestamps are JavaScript numbers holding seconds; they are modelled as rationals,
    so the rounding of floating point arithmetic is not represented. The clock of the
    runtime counts milliseconds, so \<^verbatim>\<open>timestampWithMs()\<close> is the clock divided by 1000.
  \<^item> \<^verbatim>\<open>setTimeout\<close> and \<^verbatim>\<open>clearTimeout\<close> act on a list of pending timers kept in
    the state; the runtime runs a pending timer with \<open>fire\<close>, never before it is due.
  \<^item> The object \<^verbatim>\<open>activities\<close> only ever stores the value \<^verbatim>\<open>true\<close>; it is modelled
    by the list of its own keys in insertion order, which is the order of
    \<^verbatim>\<open>Object.keys\<close> for keys that are not array indices (span identifiers are
    16 hexadecimal digits) and that are not names inherited from \<^verbatim>\<open>Object.prototype\<close>.
  \<^item> A span object is identified with its identifier (the specification asks for
    identifiers unique within a transaction). The recorder holds references to span
    objects; the reference to the transaction itself is \<open>This\<close>.
  \<^item> The wrapper that \<^verbatim>\<open>add\<close> installs calls the previous \<^verbatim>\<open>finish\<close> as a plain function
    (\<^verbatim>\<open>oldFinish(endTimestamp)\<close>), without the span as receiver: the inherited finish
    then closes no object, and the pop callback runs afterwards.
  \<^item> Calls that leave the class (the callback registered with \<^verbatim>\<open>beforeFinish\<close>, the
    inherited \<^verbatim>\<open>finish\<close>, the logger) are recorded in the field \<open>observed\<close>.
\<close>

subsection \<open>Data\<close>

text \<open>
  Modelled from the spec: the enumeration \<^verbatim>\<open>SpanStatus\<close> of \<^verbatim>\<open>spanstatus.ts\<close>, which is
  not among the sources; the class uses \<^verbatim>\<open>Cancelled\<close> and \<^verbatim>\<open>DeadlineExceeded\<close>,
  an unset status is \<open>None\<close>.
\<close>

datatype SpanStatus = Ok | DeadlineExceeded | Cancelled

text \<open>
  Modelled from the spec: the fields of \<^verbatim>\<open>Span\<close> (\<^verbatim>\<open>span.ts\<close> is not among the sources)
  that the class reads and writes.
\<close>

record Span =
  spanId :: string
  startTimestamp :: rat
  endTimestamp :: "rat option"
  status :: "SpanStatus option"

datatype SpanRef = This | Obj Span

text \<open>
  Modelled from the spec: the state of the base class \<^verbatim>\<open>SpanRecorder\<close>
  (\<^verbatim>\<open>transaction.ts\<close> is not among the sources): a bound and the sequence of spans.
\<close>

record SpanRecorder =
  maxlen :: "nat option"
  spans :: "SpanRef list"

text \<open>The two closures that the class hands to \<^verbatim>\<open>setTimeout\<close>.\<close>

datatype TimerAction =
    BeatCallback
  | FinishCallback rat

datatype Observed =
    CallbackInvoked
  | FinishInvoked "rat option"
  | LogHeartbeat
  | LogCancelling string
  | LogDiscarding string
  | LogFlushing
  | LogNoActive

text \<open>
  The transaction is a span (\<^verbatim>\<open>IdleTransaction extends Transaction extends Span\<close>).
  After the fields of the class come the parts of the runtime it acts on:
  \<open>finishWrappers i\<close> counts how often \<^verbatim>\<open>add\<close> has replaced the \<^verbatim>\<open>finish\<close> method of
  the span object \<open>i\<close>, \<open>clock\<close> is the time in milliseconds, \<open>timers\<close> holds the pending
  timers as (identifier, due time, closure).
\<close>

record IdleTransaction = Span +
  tags :: "string \<Rightarrow> string option"
  spanRecorder :: "SpanRecorder option"
  idleTimeout :: nat
  activities :: "string list"
  heartbeatTimer :: nat
  prevHeartbeatString :: "string option"
  heartbeatCounter :: nat
  finishCallback :: bool
  finishWrappers :: "string \<Rightarrow> nat"
  clock :: nat
  timers :: "(nat \<times> nat \<times> TimerAction) list"
  nextTimerId :: nat
  observed :: "Observed list"

subsection \<open>The runtime\<close>

definition timestampWithMs :: "IdleTransaction \<Rightarrow> rat" where
  "timestampWithMs s = of_nat (clock s) / 1000"

definition setTimeout :: "TimerAction \<Rightarrow> nat \<Rightarrow> IdleTransaction \<Rightarrow> nat \<times> IdleTransaction" where
  "setTimeout cb delay s =
     (nextTimerId s,
      s\<lparr>timers := timers s @ [(nextTimerId s, clock s + delay, cb)],
        nextTimerId := Suc (nextTimerId s)\<rparr>)"

definition clearTimeout :: "nat \<Rightarrow> IdleTransaction \<Rightarrow> IdleTransaction" where
  "clearTimeout tid s = s\<lparr>timers := filter (\<lambda>t. fst t \<noteq> tid) (timers s)\<rparr>"

definition logger_log :: "Observed \<Rightarrow> IdleTransaction \<Rightarrow> IdleTransaction" where
  "logger_log ev s = s\<lparr>observed := observed s @ [ev]\<rparr>"

subsection \<open>Inherited operations\<close>

text \<open>
  Modelled from the spec: \<^verbatim>\<open>Span.finish(endTimestamp?)\<close>, not among the sources. It
  closes the span at the given end timestamp, or at the current time when none is given.
\<close>

definition Span_finish :: "rat option \<Rightarrow> rat \<Rightarrow> Span \<Rightarrow> Span" where
  "Span_finish endTs now sp =
     sp\<lparr>endTimestamp := Some (case endTs of Some t \<Rightarrow> t | None \<Rightarrow> now)\<rparr>"

text \<open>
  Modelled from the spec: the underlying finish path \<^verbatim>\<open>Transaction.finish(endTimestamp?)\<close>,
  not among the sources. The call and its argument are recorded, and the transaction is
  closed as a span is; the hand-over to the event pipeline is outside the subsystem.
\<close>

definition Transaction_finish :: "rat option \<Rightarrow> IdleTransaction \<Rightarrow> IdleTransaction" where
  "Transaction_finish endTs s =
     s\<lparr>endTimestamp := Some (case endTs of Some t \<Rightarrow> t | None \<Rightarrow> timestampWithMs s),
       observed := observed s @ [FinishInvoked endTs]\<rparr>"

text \<open>
  Modelled from the spec: the inherited finish of a span or of the transaction when it is
  called as a plain function, without a receiver. This is how the wrapper installed by
  \<^verbatim>\<open>IdleTransactionSpanRecorder.add\<close> calls it (\<^verbatim>\<open>oldFinish(endTimestamp)\<close>): the call
  takes place, but it has no object to close, so no end timestamp is written. For the
  transaction the call and its argument are recorded.
\<close>

definition Transaction_finish_unbound :: "rat option \<Rightarrow> IdleTransaction \<Rightarrow> IdleTransaction" where
  "Transaction_finish_unbound endTs s = s\<lparr>observed := observed s @ [FinishInvoked endTs]\<rparr>"

text \<open>Modelled from the spec: the setters \<^verbatim>\<open>Span.setStatus\<close> and \<^verbatim>\<open>Span.setTag\<close>.\<close>

definition setStatus :: "SpanStatus \<Rightarrow> IdleTransaction \<Rightarrow> IdleTransaction" where
  "setStatus v s = s\<lparr>status := Some v\<rparr>"

definition setTag :: "string \<Rightarrow> string \<Rightarrow> IdleTransaction \<Rightarrow> IdleTransaction" where
  "setTag k v s = s\<lparr>tags := (tags s)(k := Some v)\<rparr>"

text \<open>
  Modelled from the spec: \<^verbatim>\<open>SpanRecorder.add\<close>, which appends a span and evicts the
  oldest one if the bound is exceeded. Without a bound nothing is evicted.
\<close>

definition SpanRecorder_add :: "SpanRef \<Rightarrow> SpanRecorder \<Rightarrow> SpanRecorder" where
  "SpanRecorder_add e r =
     (let xs = spans r @ [e]
      in r\<lparr>spans := (case maxlen r of
                        None \<Rightarrow> xs
                      | Some L \<Rightarrow> if L < length xs then tl xs else xs)\<rparr>)"

subsection \<open>Activities\<close>

definition pushActivity :: "string \<Rightarrow> IdleTransaction \<Rightarrow> IdleTransaction" where
  "pushActivity i s =
     (if i \<in> set (activities s) then s else s\<lparr>activities := activities s @ [i]\<rparr>)"

definition popActivity :: "string \<Rightarrow> IdleTransaction \<Rightarrow> IdleTransaction" where
  "popActivity i s =
     (let s1 = (if i \<in> set (activities s)
                then s\<lparr>activities := removeAll i (activities s)\<rparr> else s);
          count = length (activities s1)
      in if count = 0
         then (let timeout = idleTimeout s1;
                   end = timestampWithMs s1 + of_nat timeout / 1000
               in snd (setTimeout (FinishCallback end) timeout s1))
         else s1)"

text \<open>The closures that \<^verbatim>\<open>initSpanRecorder\<close> passes to the recorder.\<close>

definition initSpanRecorder_pushActivity :: "string \<Rightarrow> IdleTransaction \<Rightarrow> IdleTransaction" where
  "initSpanRecorder_pushActivity i s = (if i \<noteq> spanId s then pushActivity i s else s)"

definition initSpanRecorder_popActivity :: "string \<Rightarrow> IdleTransaction \<Rightarrow> IdleTransaction" where
  "initSpanRecorder_popActivity i s = (if i \<noteq> spanId s then popActivity i s else s)"

subsection \<open>The recorder\<close>

definition refId :: "IdleTransaction \<Rightarrow> SpanRef \<Rightarrow> string" where
  "refId s e = (case e of This \<Rightarrow> spanId s | Obj sp \<Rightarrow> spanId sp)"

text \<open>
  \<^verbatim>\<open>IdleTransactionSpanRecorder.add\<close>: the method \<^verbatim>\<open>finish\<close> of the span is replaced by a
  wrapper, the span goes to the base recorder, and the push callback is told its
  identifier. The recorder is the one that \<^verbatim>\<open>initSpanRecorder\<close> constructs, so both
  callbacks are present.
\<close>

definition IdleTransactionSpanRecorder_add :: "SpanRef \<Rightarrow> IdleTransaction \<Rightarrow> IdleTransaction" where
  "IdleTransactionSpanRecorder_add e s =
     (case spanRecorder s of
        None \<Rightarrow> s
      | Some r \<Rightarrow>
          (let i = refId s e;
               s1 = s\<lparr>finishWrappers := (finishWrappers s)(i := Suc (finishWrappers s i))\<rparr>;
               s2 = s1\<lparr>spanRecorder := Some (SpanRecorder_add e r)\<rparr>
           in initSpanRecorder_pushActivity i s2))"

text \<open>
  The method \<^verbatim>\<open>finish\<close> of the span object \<open>i\<close>. While \<^verbatim>\<open>add\<close> has not wrapped it, it
  is the inherited method and closes the span. After \<^verbatim>\<open>add\<close> has wrapped it
  \<open>finishWrappers s i\<close> times, the innermost wrapper calls the inherited method without a
  receiver, which leaves the span as it is, and then every wrapper notifies the pop
  callback.
\<close>

definition finishSpanRef :: "string \<Rightarrow> rat option \<Rightarrow> rat \<Rightarrow> SpanRef \<Rightarrow> SpanRef" where
  "finishSpanRef i endTs now e =
     (case e of
        This \<Rightarrow> This
      | Obj sp \<Rightarrow> if spanId sp = i then Obj (Span_finish endTs now sp) else Obj sp)"

definition span_finish :: "string \<Rightarrow> rat option \<Rightarrow> IdleTransaction \<Rightarrow> IdleTransaction" where
  "span_finish i endTs s =
     (if finishWrappers s i = 0
      then s\<lparr>spanRecorder :=
               map_option
                 (\<lambda>r. r\<lparr>spans := map (finishSpanRef i endTs (timestampWithMs s)) (spans r)\<rparr>)
                 (spanRecorder s)\<rparr>
      else (initSpanRecorder_popActivity i ^^ finishWrappers s i) s)"

text \<open>
  The method \<^verbatim>\<open>finish\<close> of the transaction itself. \<^verbatim>\<open>initSpanRecorder\<close> adds the
  transaction to the recorder, so from then on it is wrapped in the same way: the
  inherited finish runs without a receiver and the transaction is not closed.
\<close>

definition this_finish :: "rat option \<Rightarrow> IdleTransaction \<Rightarrow> IdleTransaction" where
  "this_finish endTs s =
     (if finishWrappers s (spanId s) = 0
      then Transaction_finish endTs s
      else (initSpanRecorder_popActivity (spanId s) ^^ finishWrappers s (spanId s))
             (Transaction_finish_unbound endTs s))"

subsection \<open>Finishing\<close>

text \<open>
  The callback of the \<^verbatim>\<open>filter\<close> in \<^verbatim>\<open>_finishIdleTransaction\<close>: whether the span is kept,
  the span as the callback leaves it, and what it logs. \<^verbatim>\<open>!span.endTimestamp\<close> holds
  for an unset end timestamp and for the number 0.
\<close>

definition keepSpan :: "rat \<Rightarrow> string \<Rightarrow> SpanRef \<Rightarrow> bool \<times> SpanRef \<times> Observed list" where
  "keepSpan endTs rid e =
     (case e of
        This \<Rightarrow> (True, This, [])
      | Obj sp \<Rightarrow>
          if spanId sp = rid then (True, Obj sp, [])
          else
            (let pending = (endTimestamp sp = None \<or> endTimestamp sp = Some 0);
                 sp1 = (if pending
                        then sp\<lparr>endTimestamp := Some endTs, status := Some Cancelled\<rparr>
                        else sp);
                 l1 = (if pending then [LogCancelling (spanId sp)] else []);
                 keep = (startTimestamp sp1 < endTs)
             in (keep, Obj sp1, if keep then l1 else l1 @ [LogDiscarding (spanId sp)])))"

fun filterSpans :: "rat \<Rightarrow> string \<Rightarrow> SpanRef list \<Rightarrow> SpanRef list \<times> Observed list" where
  "filterSpans endTs rid [] = ([], [])"
| "filterSpans endTs rid (e # es) =
     (case keepSpan endTs rid e of
        (keep, e1, l1) \<Rightarrow>
          (case filterSpans endTs rid es of
             (es1, l2) \<Rightarrow> (if keep then e1 # es1 else es1, l1 @ l2)))"

definition finishIdleTransaction :: "rat \<Rightarrow> IdleTransaction \<Rightarrow> IdleTransaction" where
  "finishIdleTransaction endTs s =
     (case spanRecorder s of
        Some r \<Rightarrow>
          (let s1 = (if finishCallback s then logger_log CallbackInvoked s else s);
               (es, l) = filterSpans endTs (spanId s1) (spans r);
               s2 = s1\<lparr>spanRecorder := Some (r\<lparr>spans := es\<rparr>), observed := observed s1 @ l\<rparr>;
               s3 = logger_log LogFlushing s2
           in this_finish None s3)
      | None \<Rightarrow> logger_log LogNoActive s)"

subsection \<open>Heartbeat\<close>

definition pingHeartbeat :: "IdleTransaction \<Rightarrow> IdleTransaction" where
  "pingHeartbeat s =
     (case setTimeout BeatCallback 5000 s of (tid, s1) \<Rightarrow> s1\<lparr>heartbeatTimer := tid\<rparr>)"

text \<open>\<^verbatim>\<open>keys.length ? keys.reduce((prev, current) => prev + current) : ''\<close>\<close>

definition heartbeatString :: "string list \<Rightarrow> string" where
  "heartbeatString keys = (case keys of [] \<Rightarrow> [] | k # ks \<Rightarrow> foldl (@) k ks)"

definition beat :: "IdleTransaction \<Rightarrow> IdleTransaction" where
  "beat s =
     (let s0 = clearTimeout (heartbeatTimer s) s;
          hb = heartbeatString (activities s0);
          s1 = (if Some hb = prevHeartbeatString s0
                then s0\<lparr>heartbeatCounter := heartbeatCounter s0 + 1\<rparr>
                else s0\<lparr>heartbeatCounter := 1\<rparr>);
          s2 = s1\<lparr>prevHeartbeatString := Some hb\<rparr>
      in if 3 \<le> heartbeatCounter s2
         then (let s3 = logger_log LogHeartbeat s2;
                   s4 = setStatus DeadlineExceeded s3;
                   s5 = setTag ''heartbeat'' ''failed'' s4
               in finishIdleTransaction (timestampWithMs s5) s5)
         else pingHeartbeat s2)"

subsection \<open>Construction\<close>

text \<open>
  The constructor, for a transaction with span identifier \<open>rid\<close> created when the clock
  shows \<open>c\<close>: the fields take their initial values and the heartbeat is started. The
  registration with the hub's scope does not touch the transaction.
\<close>

definition IdleTransaction_new :: "string \<Rightarrow> nat \<Rightarrow> nat \<Rightarrow> IdleTransaction" where
  "IdleTransaction_new rid timeout c =
     pingHeartbeat
       \<lparr>spanId = rid, startTimestamp = of_nat c / 1000, endTimestamp = None, status = None,
        tags = (\<lambda>_. None), spanRecorder = None, idleTimeout = timeout, activities = [],
        heartbeatTimer = 0, prevHeartbeatString = None, heartbeatCounter = 0,
        finishCallback = False, finishWrappers = (\<lambda>_. 0), clock = c, timers = [],
        nextTimerId = 1, observed = []\<rparr>"

text \<open>
  \<^verbatim>\<open>beforeFinish\<close> stores a function of the caller. The state keeps whether a callback
  is registered; each invocation of it is recorded as \<open>CallbackInvoked\<close>.
\<close>

definition beforeFinish :: "IdleTransaction \<Rightarrow> IdleTransaction" where
  "beforeFinish s = s\<lparr>finishCallback := True\<rparr>"

definition initSpanRecorder :: "nat option \<Rightarrow> IdleTransaction \<Rightarrow> IdleTransaction" where
  "initSpanRecorder m s =
     (let s1 = (case spanRecorder s of
                  None \<Rightarrow> s\<lparr>spanRecorder := Some \<lparr>maxlen = m, spans = []\<rparr>\<rparr>
                | Some r \<Rightarrow> s)
      in IdleTransactionSpanRecorder_add This s1)"

text \<open>
  Modelled from the spec: \<^verbatim>\<open>Span.startChild\<close>, not among the sources. It creates a span
  that starts now and adds it to the recorder of the transaction, if there is one.
\<close>

definition startChild :: "string \<Rightarrow> IdleTransaction \<Rightarrow> IdleTransaction" where
  "startChild i s =
     IdleTransactionSpanRecorder_add
       (Obj \<lparr>spanId = i, startTimestamp = timestampWithMs s, endTimestamp = None,
             status = None\<rparr>) s"

subsection \<open>The event loop\<close>

text \<open>
  The runtime lets time pass and runs a pending timer once it is due; a timer that has
  run is no longer pending.
\<close>

definition elapse :: "nat \<Rightarrow> IdleTransaction \<Rightarrow> IdleTransaction" where
  "elapse n s = s\<lparr>clock := clock s + n\<rparr>"

definition fire :: "nat \<Rightarrow> IdleTransaction \<Rightarrow> IdleTransaction" where
  "fire tid s =
     (case find (\<lambda>t. fst t = tid) (timers s) of
        None \<Rightarrow> s
      | Some (_, due, cb) \<Rightarrow>
          if clock s < due then s
          else (let s1 = clearTimeout tid s
                in case cb of
                     BeatCallback \<Rightarrow> beat s1
                   | FinishCallback e \<Rightarrow> finishIdleTransaction e s1))"

datatype Event =
    StartChild string
  | FinishSpan string "rat option"
  | FinishTransaction "rat option"
  | Elapse nat
  | Fire nat

fun step :: "IdleTransaction \<Rightarrow> Event \<Rightarrow> IdleTransaction" where
  "step s (StartChild i) = startChild i s"
| "step s (FinishSpan i endTs) = span_finish i endTs s"
| "step s (FinishTransaction endTs) = this_finish endTs s"
| "step s (Elapse n) = elapse n s"
| "step s (Fire tid) = fire tid s"

definition run :: "IdleTransaction \<Rightarrow> Event list \<Rightarrow> IdleTransaction" where
  "run s evs = foldl step s evs"

subsection \<open>Observations\<close>

text \<open>How often the callback of \<^verbatim>\<open>beforeFinish\<close> and the inherited finish have run.\<close>

fun isFinishInvoked :: "Observed \<Rightarrow> bool" where
  "isFinishInvoked (FinishInvoked endTs) = True"
| "isFinishInvoked ev = False"

definition finishCalls :: "IdleTransaction \<Rightarrow> nat" where
  "finishCalls s = length (filter isFinishInvoked (observed s))"

definition callbackCalls :: "IdleTransaction \<Rightarrow> nat" where
  "callbackCalls s = length (filter (\<lambda>ev. ev = CallbackInvoked) (observed s))"


text \<open>
  The identifiers of the spans that a sequence of events has started and not finished
  since: what the activity set is meant to mirror.
\<close>

fun track :: "string set \<Rightarrow> Event \<Rightarrow> string set" where
  "track U (StartChild i) = insert i U"
| "track U (FinishSpan i endTs) = U - {i}"
| "track U (FinishTransaction endTs) = U"
| "track U (Elapse n) = U"
| "track U (Fire tid) = U"

definition unfinished :: "Event list \<Rightarrow> string set" where
  "unfinished evs = foldl track {} evs"

section \<open>Push and pop on the activity set\<close>

lemma activities_pushActivity:
  "activities (pushActivity i s) =
     (if i \<in> set (activities s) then activities s else activities s @ [i])"
  by (simp add: pushActivity_def)

lemma set_activities_pushActivity:
  "set (activities (pushActivity i s)) = insert i (set (activities s))"
  by (auto simp: pushActivity_def)

lemma activities_popActivity:
  "activities (popActivity i s) = removeAll i (activities s)"
  by (simp add: popActivity_def setTimeout_def Let_def)

text \<open>
  C9. Pushing the same identifier twice gives the state that pushing it once gives, and
  one pop afterwards removes the identifier from the activity set.
\<close>

theorem pushActivity_idempotent:
  "pushActivity i (pushActivity i s) = pushActivity i s \<and>
   i \<notin> set (activities (popActivity i (pushActivity i (pushActivity i s))))"
  by (simp add: pushActivity_def activities_popActivity)

section \<open>The finish path\<close>

lemma funpow_fixed: "f x = x \<Longrightarrow> (f ^^ n) x = x"
  by (induction n) simp_all

text \<open>
  The wrappers around the transaction's own \<^verbatim>\<open>finish\<close> notify the pop callback with the
  identifier of the transaction, which the callback ignores.
\<close>

lemma this_finish_eq:
  "this_finish endTs s =
     (if finishWrappers s (spanId s) = 0 then Transaction_finish endTs s
      else Transaction_finish_unbound endTs s)"
proof -
  have "(initSpanRecorder_popActivity (spanId s) ^^ n) (Transaction_finish_unbound endTs s) =
          Transaction_finish_unbound endTs s" for n
    by (rule funpow_fixed)
       (simp add: initSpanRecorder_popActivity_def Transaction_finish_unbound_def)
  then show ?thesis
    by (simp add: this_finish_def)
qed

lemma this_finish_fields:
  "spanId (this_finish endTs s) = spanId s"
  "status (this_finish endTs s) = status s"
  "tags (this_finish endTs s) = tags s"
  "spanRecorder (this_finish endTs s) = spanRecorder s"
  "activities (this_finish endTs s) = activities s"
  "finishWrappers (this_finish endTs s) = finishWrappers s"
  "finishCallback (this_finish endTs s) = finishCallback s"
  "heartbeatCounter (this_finish endTs s) = heartbeatCounter s"
  "prevHeartbeatString (this_finish endTs s) = prevHeartbeatString s"
  "heartbeatTimer (this_finish endTs s) = heartbeatTimer s"
  "idleTimeout (this_finish endTs s) = idleTimeout s"
  "timers (this_finish endTs s) = timers s"
  "nextTimerId (this_finish endTs s) = nextTimerId s"
  "clock (this_finish endTs s) = clock s"
  "observed (this_finish endTs s) = observed s @ [FinishInvoked endTs]"
  by (simp_all add: this_finish_eq Transaction_finish_def Transaction_finish_unbound_def)

lemma finishIdleTransaction_Some:
  "spanRecorder s = Some r \<Longrightarrow>
   finishIdleTransaction T s =
     this_finish None
       (logger_log LogFlushing
         ((if finishCallback s then logger_log CallbackInvoked s else s)
            \<lparr>spanRecorder := Some (r\<lparr>spans := fst (filterSpans T (spanId s) (spans r))\<rparr>),
             observed := observed (if finishCallback s then logger_log CallbackInvoked s else s)
                           @ snd (filterSpans T (spanId s) (spans r))\<rparr>))"
  by (simp add: finishIdleTransaction_def Let_def logger_log_def split: prod.splits)

lemma finishIdleTransaction_None:
  "spanRecorder s = None \<Longrightarrow> finishIdleTransaction T s = logger_log LogNoActive s"
  by (simp add: finishIdleTransaction_def)

lemma finishIdleTransaction_fields:
  "spanId (finishIdleTransaction T s) = spanId s"
  "status (finishIdleTransaction T s) = status s"
  "tags (finishIdleTransaction T s) = tags s"
  "activities (finishIdleTransaction T s) = activities s"
  "finishWrappers (finishIdleTransaction T s) = finishWrappers s"
  "finishCallback (finishIdleTransaction T s) = finishCallback s"
  "heartbeatCounter (finishIdleTransaction T s) = heartbeatCounter s"
  "prevHeartbeatString (finishIdleTransaction T s) = prevHeartbeatString s"
  "heartbeatTimer (finishIdleTransaction T s) = heartbeatTimer s"
  "idleTimeout (finishIdleTransaction T s) = idleTimeout s"
  "timers (finishIdleTransaction T s) = timers s"
  "nextTimerId (finishIdleTransaction T s) = nextTimerId s"
  "clock (finishIdleTransaction T s) = clock s"
  "(spanRecorder (finishIdleTransaction T s) = None) = (spanRecorder s = None)"
  by (cases "spanRecorder s";
      simp add: finishIdleTransaction_Some finishIdleTransaction_None logger_log_def
        this_finish_fields)+

text \<open>
  C8. When no span recorder is attached, the finish path only writes the log line
  "No active IdleTransaction": every field of the transaction keeps its value, the
  callback of \<^verbatim>\<open>beforeFinish\<close> is not invoked and the inherited finish is not called.
\<close>

theorem finishIdleTransaction_without_recorder:
  "spanRecorder s = None \<Longrightarrow>
   finishIdleTransaction T s = s\<lparr>observed := observed s @ [LogNoActive]\<rparr> \<and>
   callbackCalls (finishIdleTransaction T s) = callbackCalls s \<and>
   finishCalls (finishIdleTransaction T s) = finishCalls s"
  by (simp add: finishIdleTransaction_None logger_log_def callbackCalls_def finishCalls_def)

theorem finishIdleTransaction_without_recorder_witness:
  "spanRecorder (IdleTransaction_new ''r'' 1000 0) = None \<and>
   observed (finishIdleTransaction 1 (IdleTransaction_new ''r'' 1000 0)) = [LogNoActive] \<and>
   callbackCalls (finishIdleTransaction 1 (IdleTransaction_new ''r'' 1000 0)) = 0 \<and>
   finishCalls (finishIdleTransaction 1 (IdleTransaction_new ''r'' 1000 0)) = 0"
proof -
  have h: "spanRecorder (IdleTransaction_new ''r'' 1000 0) = None"
    by (simp add: IdleTransaction_new_def pingHeartbeat_def setTimeout_def)
  show ?thesis
    using h finishIdleTransaction_without_recorder [OF h, of 1]
    by (simp add: IdleTransaction_new_def pingHeartbeat_def setTimeout_def
        callbackCalls_def finishCalls_def)
qed

section \<open>Popping an activity\<close>

lemmas model_defs =
  IdleTransaction_new_def pingHeartbeat_def setTimeout_def clearTimeout_def logger_log_def
  initSpanRecorder_def IdleTransactionSpanRecorder_add_def SpanRecorder_add_def refId_def
  startChild_def initSpanRecorder_pushActivity_def initSpanRecorder_popActivity_def
  pushActivity_def popActivity_def timestampWithMs_def Let_def
  span_finish_def finishSpanRef_def Span_finish_def this_finish_def Transaction_finish_def
  Transaction_finish_unbound_def
  fire_def elapse_def beat_def heartbeatString_def setStatus_def setTag_def
  finishIdleTransaction_def keepSpan_def run_def beforeFinish_def
  finishCalls_def callbackCalls_def

text \<open>
  C7, as the code has it. Popping an identifier that is not in the activity set raises
  nothing and leaves the activity set as it is. When the activity set is not empty the
  whole state is unchanged. When the activity set is empty the pop schedules a delayed
  finish, as a pop that empties the set does: the test for an empty set stands outside
  the test for membership.
\<close>

theorem popActivity_unknown:
  "i \<notin> set (activities s) \<Longrightarrow>
   activities (popActivity i s) = activities s \<and>
   popActivity i s =
     (if activities s = []
      then s\<lparr>timers := timers s @
                 [(nextTimerId s, clock s + idleTimeout s,
                   FinishCallback (timestampWithMs s + of_nat (idleTimeout s) / 1000))],
             nextTimerId := Suc (nextTimerId s)\<rparr>
      else s)"
  by (simp add: popActivity_def setTimeout_def Let_def timestampWithMs_def)

theorem popActivity_unknown_witness:
  "''x'' \<notin> set (activities (pushActivity ''a'' (IdleTransaction_new ''r'' 1000 0))) \<and>
   popActivity ''x'' (pushActivity ''a'' (IdleTransaction_new ''r'' 1000 0)) =
     pushActivity ''a'' (IdleTransaction_new ''r'' 1000 0) \<and>
   ''x'' \<notin> set (activities (IdleTransaction_new ''r'' 1000 0)) \<and>
   timers (popActivity ''x'' (IdleTransaction_new ''r'' 1000 0)) =
     [(1, 5000, BeatCallback), (2, 1000, FinishCallback 1)]"
proof -
  have h0: "''x'' \<notin> set (activities (IdleTransaction_new ''r'' 1000 0))"
    by (simp add: IdleTransaction_new_def pingHeartbeat_def setTimeout_def)
  have e: "timers (popActivity ''x'' (IdleTransaction_new ''r'' 1000 0)) =
     [(1, 5000, BeatCallback), (2, 1000, FinishCallback 1)]"
    using popActivity_unknown [OF h0]
    by (simp add: IdleTransaction_new_def pingHeartbeat_def setTimeout_def timestampWithMs_def)
  have h: "''x'' \<notin> set (activities (pushActivity ''a'' (IdleTransaction_new ''r'' 1000 0)))"
    by (simp add: IdleTransaction_new_def pingHeartbeat_def setTimeout_def pushActivity_def)
  have n: "activities (pushActivity ''a'' (IdleTransaction_new ''r'' 1000 0)) \<noteq> []"
    by (simp add: IdleTransaction_new_def pingHeartbeat_def setTimeout_def pushActivity_def)
  show ?thesis
    using h n h0 e popActivity_unknown [OF h] by simp
qed

text \<open>
  The claim as the specification states it fails on a transaction without activities:
  popping the unknown identifier \<open>x\<close> adds the timer 2, and when that timer runs the
  transaction is finished.
\<close>

theorem popActivity_unknown_counterexample:
  "''x'' \<notin> set (activities (initSpanRecorder None (IdleTransaction_new ''r'' 1000 0))) \<and>
   finishCalls (initSpanRecorder None (IdleTransaction_new ''r'' 1000 0)) = 0 \<and>
   timers (popActivity ''x'' (initSpanRecorder None (IdleTransaction_new ''r'' 1000 0))) =
     [(1, 5000, BeatCallback), (2, 1000, FinishCallback 1)] \<and>
   finishCalls (fire 2 (elapse 1000
     (popActivity ''x'' (initSpanRecorder None (IdleTransaction_new ''r'' 1000 0))))) = 1"
  by (simp add: IdleTransaction_new_def pingHeartbeat_def setTimeout_def initSpanRecorder_def
      IdleTransactionSpanRecorder_add_def SpanRecorder_add_def refId_def
      initSpanRecorder_pushActivity_def popActivity_def timestampWithMs_def Let_def
      fire_def elapse_def clearTimeout_def finishIdleTransaction_def keepSpan_def
      this_finish_def Transaction_finish_def Transaction_finish_unbound_def
      initSpanRecorder_popActivity_def
      logger_log_def finishCalls_def)

lemma find_append_fresh:
  "\<forall>t\<in>set xs. fst t \<noteq> k \<Longrightarrow> find (\<lambda>t. fst t = k) (xs @ [(k, v)]) = Some (k, v)"
  by (induction xs) auto

lemma popActivity_empties:
  "removeAll i (activities s) = [] \<Longrightarrow>
   popActivity i s =
     s\<lparr>activities := [],
       timers := timers s @
         [(nextTimerId s, clock s + idleTimeout s,
           FinishCallback (timestampWithMs s + of_nat (idleTimeout s) / 1000))],
       nextTimerId := Suc (nextTimerId s)\<rparr>"
proof (cases "i \<in> set (activities s)")
  case True
  assume "removeAll i (activities s) = []"
  with True show ?thesis
    by (simp add: popActivity_def setTimeout_def Let_def timestampWithMs_def)
next
  case False
  assume "removeAll i (activities s) = []"
  with False have "activities s = []" by simp
  with False show ?thesis
    by (simp add: popActivity_def setTimeout_def Let_def timestampWithMs_def)
qed

text \<open>
  When a pop leaves the activity set empty, one timer is added: it is due \<open>idleTimeout\<close>
  milliseconds after the pop and its closure holds the end timestamp computed at the
  pop. The timer does not run before it is due; whenever it runs afterwards, the finish
  path is entered with the end timestamp held by the closure.
\<close>

lemma popActivity_schedules_finish:
  assumes empty: "removeAll i (activities s) = []"
    and fresh: "\<forall>t\<in>set (timers s). fst t < nextTimerId s"
  shows "timers (popActivity i s) =
           timers s @ [(nextTimerId s, clock s + idleTimeout s,
                        FinishCallback (timestampWithMs s + of_nat (idleTimeout s) / 1000))] \<and>
         fire (nextTimerId s) (elapse d (popActivity i s)) =
           (if d < idleTimeout s then elapse d (popActivity i s)
            else finishIdleTransaction (timestampWithMs s + of_nat (idleTimeout s) / 1000)
                   (clearTimeout (nextTimerId s) (elapse d (popActivity i s))))"
proof -
  let ?e = "timestampWithMs s + of_nat (idleTimeout s) / 1000"
  let ?t = "(nextTimerId s, clock s + idleTimeout s, FinishCallback ?e)"
  have t: "timers (popActivity i s) = timers s @ [?t]"
    by (simp add: popActivity_empties [OF empty])
  have ne: "\<forall>t\<in>set (timers s). fst t \<noteq> nextTimerId s"
    using fresh by auto
  have f: "find (\<lambda>t. fst t = nextTimerId s) (timers (popActivity i s)) = Some ?t"
    unfolding t by (rule find_append_fresh [OF ne])
  have c: "clock (popActivity i s) = clock s"
    by (simp add: popActivity_empties [OF empty])
  have "fire (nextTimerId s) (elapse d (popActivity i s)) =
           (if d < idleTimeout s then elapse d (popActivity i s)
            else finishIdleTransaction ?e
                   (clearTimeout (nextTimerId s) (elapse d (popActivity i s))))"
    using f c by (simp add: fire_def elapse_def)
  with t show ?thesis by simp
qed



section \<open>The heartbeat\<close>

lemma heartbeatString_concat: "heartbeatString keys = concat keys"
proof -
  have "foldl (@) k ks = k @ concat ks" for k :: string and ks
    by (induction ks arbitrary: k) simp_all
  then show ?thesis
    by (simp add: heartbeatString_def split: list.splits)
qed

lemma beat_stalled:
  "3 \<le> (if prevHeartbeatString s = Some (heartbeatString (activities s))
          then heartbeatCounter s + 1 else 1) \<Longrightarrow>
   beat s =
     finishIdleTransaction (timestampWithMs s)
       (s\<lparr>timers := filter (\<lambda>t. fst t \<noteq> heartbeatTimer s) (timers s),
          heartbeatCounter := heartbeatCounter s + 1,
          prevHeartbeatString := Some (heartbeatString (activities s)),
          observed := observed s @ [LogHeartbeat],
          status := Some DeadlineExceeded,
          tags := (tags s)(''heartbeat'' := Some ''failed'')\<rparr>)"
  by (auto simp: beat_def clearTimeout_def Let_def logger_log_def setStatus_def setTag_def
      timestampWithMs_def split: if_splits)

lemma beat_alive:
  "\<not> 3 \<le> (if prevHeartbeatString s = Some (heartbeatString (activities s))
          then heartbeatCounter s + 1 else 1) \<Longrightarrow>
   beat s =
     s\<lparr>timers := filter (\<lambda>t. fst t \<noteq> heartbeatTimer s) (timers s) @
                    [(nextTimerId s, clock s + 5000, BeatCallback)],
       nextTimerId := Suc (nextTimerId s),
       heartbeatCounter := (if prevHeartbeatString s = Some (heartbeatString (activities s))
          then heartbeatCounter s + 1 else 1),
       prevHeartbeatString := Some (heartbeatString (activities s)),
       heartbeatTimer := nextTimerId s\<rparr>"
  by (auto simp: beat_def clearTimeout_def Let_def pingHeartbeat_def setTimeout_def
      split: if_splits)

lemma heartbeatCounter_beat:
  "heartbeatCounter (beat s) =
     (if prevHeartbeatString s = Some (heartbeatString (activities s))
      then heartbeatCounter s + 1 else 1)"
proof (cases "3 \<le> (if prevHeartbeatString s = Some (heartbeatString (activities s))
          then heartbeatCounter s + 1 else 1)")
  case True
  then show ?thesis
    by (simp add: beat_stalled [OF True] finishIdleTransaction_fields split: if_splits)
next
  case False
  then show ?thesis
    by (simp add: beat_alive [OF False])
qed

text \<open>
  C2. A heartbeat tick compares the signature of the activity set with the one stored
  by the previous tick: the counter is incremented when they are equal and set to 1
  otherwise, and the signature is stored. When the counter has reached 3 the status
  becomes \<open>DeadlineExceeded\<close>, the tag \<open>heartbeat\<close> becomes \<open>failed\<close>, the finish path is
  entered with the current time and no further tick is scheduled. Otherwise the only
  effect is a new heartbeat timer due 5000 milliseconds later.
\<close>
theorem beat_heartbeat:
  "heartbeatCounter (beat s) =
     (if prevHeartbeatString s = Some (heartbeatString (activities s))
      then heartbeatCounter s + 1 else 1) \<and>
   prevHeartbeatString (beat s) = Some (heartbeatString (activities s)) \<and>
   (if 3 \<le> heartbeatCounter (beat s)
    then status (beat s) = Some DeadlineExceeded \<and>
         tags (beat s) ''heartbeat'' = Some ''failed'' \<and>
         beat s =
           finishIdleTransaction (timestampWithMs s)
             (s\<lparr>timers := filter (\<lambda>t. fst t \<noteq> heartbeatTimer s) (timers s),
                heartbeatCounter := heartbeatCounter s + 1,
                prevHeartbeatString := Some (heartbeatString (activities s)),
                observed := observed s @ [LogHeartbeat],
                status := Some DeadlineExceeded,
                tags := (tags s)(''heartbeat'' := Some ''failed'')\<rparr>) \<and>
         timers (beat s) = filter (\<lambda>t. fst t \<noteq> heartbeatTimer s) (timers s)
    else timers (beat s) =
           filter (\<lambda>t. fst t \<noteq> heartbeatTimer s) (timers s) @
             [(nextTimerId s, clock s + 5000, BeatCallback)] \<and>
         heartbeatTimer (beat s) = nextTimerId s \<and>
         observed (beat s) = observed s \<and>
         status (beat s) = status s \<and>
         tags (beat s) = tags s)"
proof (cases "3 \<le> (if prevHeartbeatString s = Some (heartbeatString (activities s))
          then heartbeatCounter s + 1 else 1)")
  case True
  note b = beat_stalled [OF True]
  from True have n: "prevHeartbeatString s = Some (heartbeatString (activities s))"
    by (simp split: if_splits)
  show ?thesis
    using True n by (simp add: b finishIdleTransaction_fields)
next
  case False
  show ?thesis
    using False by (simp add: beat_alive [OF False])
qed

text \<open>
  C10. The signature is the concatenation of the identifiers without a separator, so it
  does not determine the activity set: the sets \<open>{ab, c}\<close> and \<open>{a, bc}\<close> differ and have
  the signature \<open>abc\<close>. A tick that finds the second set after a tick that stored the
  signature of the first one increments the counter. The last part runs this on a
  transaction: between the tick at 5000 and the tick at 10000 both activities are
  replaced, and the second tick counts 2.
\<close>

theorem heartbeatString_not_injective:
  "set [''ab'', ''c''] \<noteq> set [''a'', ''bc''] \<and>
   heartbeatString [''ab'', ''c''] = heartbeatString [''a'', ''bc''] \<and>
   heartbeatCounter
     (beat (s\<lparr>activities := [''a'', ''bc''],
              prevHeartbeatString := Some (heartbeatString [''ab'', ''c''])\<rparr>)) =
     heartbeatCounter s + 1 \<and>
   activities (run (initSpanRecorder None (IdleTransaction_new ''r'' 1000 0))
     [StartChild ''ab'', StartChild ''c'', Elapse 5000, Fire 1]) = [''ab'', ''c''] \<and>
   heartbeatCounter (run (initSpanRecorder None (IdleTransaction_new ''r'' 1000 0))
     [StartChild ''ab'', StartChild ''c'', Elapse 5000, Fire 1]) = 1 \<and>
   activities (run (initSpanRecorder None (IdleTransaction_new ''r'' 1000 0))
     [StartChild ''ab'', StartChild ''c'', Elapse 5000, Fire 1,
      FinishSpan ''ab'' None, StartChild ''a'', FinishSpan ''c'' None, StartChild ''bc'',
      Elapse 5000, Fire 2]) = [''a'', ''bc''] \<and>
   heartbeatCounter (run (initSpanRecorder None (IdleTransaction_new ''r'' 1000 0))
     [StartChild ''ab'', StartChild ''c'', Elapse 5000, Fire 1,
      FinishSpan ''ab'' None, StartChild ''a'', FinishSpan ''c'' None, StartChild ''bc'',
      Elapse 5000, Fire 2]) = 2"
proof -
  have "''ab'' \<in> set [''ab'', ''c'']" and "''ab'' \<notin> set [''a'', ''bc'']"
    by simp_all
  then have "set [''ab'', ''c''] \<noteq> set [''a'', ''bc'']"
    by metis
  moreover have "heartbeatCounter
     (beat (s\<lparr>activities := [''a'', ''bc''],
              prevHeartbeatString := Some (heartbeatString [''ab'', ''c''])\<rparr>)) =
     heartbeatCounter s + 1"
    by (simp add: heartbeatCounter_beat heartbeatString_def)
  ultimately show ?thesis
    by (simp add: model_defs)
qed

section \<open>Pruning and repeated finishing\<close>




lemma spanRecorder_finishIdleTransaction:
  "spanRecorder s = Some r \<Longrightarrow>
   spanRecorder (finishIdleTransaction T s) =
     Some (r\<lparr>spans := fst (filterSpans T (spanId s) (spans r))\<rparr>)"
  by (simp add: finishIdleTransaction_Some this_finish_fields logger_log_def)

lemma observed_finishIdleTransaction:
  "spanRecorder s = Some r \<Longrightarrow>
   observed (finishIdleTransaction T s) =
     observed s @ (if finishCallback s then [CallbackInvoked] else []) @
       snd (filterSpans T (spanId s) (spans r)) @ [LogFlushing, FinishInvoked None]"
  by (simp add: finishIdleTransaction_Some this_finish_fields logger_log_def)

lemma filterSpans_log:
  "filter isFinishInvoked (snd (filterSpans T rid es)) = [] \<and>
   filter (\<lambda>ev. ev = CallbackInvoked) (snd (filterSpans T rid es)) = []"
  by (induction es) (auto simp: keepSpan_def Let_def split: prod.splits SpanRef.splits if_splits)

text \<open>
  C1, as the code has it. The finish path has no guard other than the presence of the
  recorder, and it leaves the recorder and the callback in place. So every run of the
  finish path with a recorder attached, whether or not the transaction has finished
  before, invokes the callback of \<^verbatim>\<open>beforeFinish\<close> once if one is registered, prunes
  the sequence of the recorder and calls the inherited finish once.
\<close>
theorem finishIdleTransaction_not_guarded:
  assumes "spanRecorder s = Some r"
  shows "finishCalls (finishIdleTransaction T s) = finishCalls s + 1 \<and>
     callbackCalls (finishIdleTransaction T s) =
       callbackCalls s + (if finishCallback s then 1 else 0) \<and>
     spanRecorder (finishIdleTransaction T s) =
       Some (r\<lparr>spans := fst (filterSpans T (spanId s) (spans r))\<rparr>) \<and>
     finishCallback (finishIdleTransaction T s) = finishCallback s"
  using assms filterSpans_log [of T "spanId s" "spans r"]
  by (simp add: spanRecorder_finishIdleTransaction observed_finishIdleTransaction
      finishIdleTransaction_fields finishCalls_def callbackCalls_def)

theorem finishIdleTransaction_not_guarded_witness:
  "spanRecorder (finishIdleTransaction 3
       (beforeFinish (initSpanRecorder None (IdleTransaction_new ''r'' 1000 1000)))) =
     Some \<lparr>maxlen = None, spans = [This]\<rparr> \<and>
   finishCalls (finishIdleTransaction 3
       (beforeFinish (initSpanRecorder None (IdleTransaction_new ''r'' 1000 1000)))) = 1 \<and>
   finishCalls (finishIdleTransaction 3 (finishIdleTransaction 3
       (beforeFinish (initSpanRecorder None (IdleTransaction_new ''r'' 1000 1000))))) = 2 \<and>
   callbackCalls (finishIdleTransaction 3 (finishIdleTransaction 3
       (beforeFinish (initSpanRecorder None (IdleTransaction_new ''r'' 1000 1000))))) = 2"
proof -
  let ?s = "beforeFinish (initSpanRecorder None (IdleTransaction_new ''r'' 1000 1000))"
  let ?r = "\<lparr>maxlen = None, spans = [This]\<rparr>"
  have h: "spanRecorder ?s = Some ?r"
    by (simp add: model_defs)
  have z: "finishCalls ?s = 0" "callbackCalls ?s = 0" "finishCallback ?s" "spanId ?s = ''r''"
    by (simp_all add: model_defs)
  note one = finishIdleTransaction_not_guarded [OF h, of 3]
  have h1: "spanRecorder (finishIdleTransaction 3 ?s) = Some ?r"
    using one by (simp add: z keepSpan_def)
  note two = finishIdleTransaction_not_guarded [OF h1, of 3]
  show ?thesis
    using one two h1 by (simp add: z)
qed

text \<open>
  The claim as the specification states it fails. The transaction is finished
  explicitly at 2, after the last activity has ended. The idle timer set by that
  activity runs at 3 and goes through the finish path: the callback is invoked, the
  span of \<open>a\<close>, which its wrapped \<^verbatim>\<open>finish\<close> has left without end timestamp, is
  cancelled, and the inherited finish is called a second time. The third heartbeat tick
  goes through the finish path once more.
\<close>

theorem finishIdleTransaction_not_guarded_counterexample:
  "finishCalls (run (beforeFinish (initSpanRecorder None (IdleTransaction_new ''r'' 1000 1000)))
     [StartChild ''a'', Elapse 1000, FinishSpan ''a'' None, FinishTransaction (Some 2)]) = 1 \<and>
   observed (run (beforeFinish (initSpanRecorder None (IdleTransaction_new ''r'' 1000 1000)))
     [StartChild ''a'', Elapse 1000, FinishSpan ''a'' None, FinishTransaction (Some 2),
      Elapse 1000, Fire 2]) =
     [FinishInvoked (Some 2), CallbackInvoked, LogCancelling ''a'', LogFlushing,
      FinishInvoked None] \<and>
   observed (run (beforeFinish (initSpanRecorder None (IdleTransaction_new ''r'' 1000 1000)))
     [StartChild ''a'', Elapse 1000, FinishSpan ''a'' None, FinishTransaction (Some 2),
      Elapse 1000, Fire 2, Elapse 3000, Fire 1, Elapse 5000, Fire 3, Elapse 5000, Fire 4]) =
     [FinishInvoked (Some 2), CallbackInvoked, LogCancelling ''a'', LogFlushing,
      FinishInvoked None, LogHeartbeat, CallbackInvoked, LogFlushing, FinishInvoked None]"
  by (simp add: model_defs)

section \<open>The activity set along a run\<close>

lemma popActivity_fields:
  "spanId (popActivity i s) = spanId s"
  "spanRecorder (popActivity i s) = spanRecorder s"
  "finishWrappers (popActivity i s) = finishWrappers s"
  "clock (popActivity i s) = clock s"
  "observed (popActivity i s) = observed s"
  by (simp_all add: popActivity_def setTimeout_def Let_def)

lemma pop_callback_fields:
  "spanId (initSpanRecorder_popActivity i s) = spanId s"
  "spanRecorder (initSpanRecorder_popActivity i s) = spanRecorder s"
  "finishWrappers (initSpanRecorder_popActivity i s) = finishWrappers s"
  "clock (initSpanRecorder_popActivity i s) = clock s"
  "observed (initSpanRecorder_popActivity i s) = observed s"
  "activities (initSpanRecorder_popActivity i s) =
     (if i = spanId s then activities s else removeAll i (activities s))"
  by (simp_all add: initSpanRecorder_popActivity_def popActivity_fields activities_popActivity)

lemma pop_callback_funpow:
  "spanId ((initSpanRecorder_popActivity i ^^ n) s) = spanId s \<and>
   spanRecorder ((initSpanRecorder_popActivity i ^^ n) s) = spanRecorder s \<and>
   finishWrappers ((initSpanRecorder_popActivity i ^^ n) s) = finishWrappers s \<and>
   clock ((initSpanRecorder_popActivity i ^^ n) s) = clock s \<and>
   observed ((initSpanRecorder_popActivity i ^^ n) s) = observed s \<and>
   activities ((initSpanRecorder_popActivity i ^^ n) s) =
     (if n = 0 \<or> i = spanId s then activities s else removeAll i (activities s))"
  by (induction n) (auto simp: pop_callback_fields)

lemma add_fields:
  assumes "spanRecorder s = Some r"
  shows "spanId (IdleTransactionSpanRecorder_add e s) = spanId s"
    and "spanRecorder (IdleTransactionSpanRecorder_add e s) = Some (SpanRecorder_add e r)"
    and "finishWrappers (IdleTransactionSpanRecorder_add e s) =
           (finishWrappers s)(refId s e := Suc (finishWrappers s (refId s e)))"
    and "activities (IdleTransactionSpanRecorder_add e s) =
           (if refId s e = spanId s \<or> refId s e \<in> set (activities s) then activities s
            else activities s @ [refId s e])"
    and "timers (IdleTransactionSpanRecorder_add e s) = timers s"
    and "nextTimerId (IdleTransactionSpanRecorder_add e s) = nextTimerId s"
    and "clock (IdleTransactionSpanRecorder_add e s) = clock s"
    and "observed (IdleTransactionSpanRecorder_add e s) = observed s"
    and "finishCallback (IdleTransactionSpanRecorder_add e s) = finishCallback s"
  using assms
  by (simp_all add: IdleTransactionSpanRecorder_add_def Let_def initSpanRecorder_pushActivity_def
      pushActivity_def)

lemma span_finish_fields:
  "spanId (span_finish i endTs s) = spanId s"
  "(spanRecorder (span_finish i endTs s) = None) = (spanRecorder s = None)"
  "finishWrappers (span_finish i endTs s) = finishWrappers s"
  "activities (span_finish i endTs s) =
     (if finishWrappers s i = 0 \<or> i = spanId s then activities s
      else removeAll i (activities s))"
  by (simp_all add: span_finish_def Let_def pop_callback_funpow)

lemma beat_fields:
  "spanId (beat s) = spanId s"
  "(spanRecorder (beat s) = None) = (spanRecorder s = None)"
  "finishWrappers (beat s) = finishWrappers s"
  "activities (beat s) = activities s"
proof -
  let ?c = "3 \<le> (if prevHeartbeatString s = Some (heartbeatString (activities s))
          then heartbeatCounter s + 1 else 1)"
  have "spanId (beat s) = spanId s \<and> (spanRecorder (beat s) = None) = (spanRecorder s = None) \<and>
    finishWrappers (beat s) = finishWrappers s \<and> activities (beat s) = activities s"
  proof (cases ?c)
    case True
    show ?thesis by (simp add: beat_stalled [OF True] finishIdleTransaction_fields)
  next
    case False
    show ?thesis by (simp add: beat_alive [OF False])
  qed
  then show "spanId (beat s) = spanId s"
    "(spanRecorder (beat s) = None) = (spanRecorder s = None)"
    "finishWrappers (beat s) = finishWrappers s"
    "activities (beat s) = activities s"
    by simp_all
qed

lemma fire_fields:
  "spanId (fire tid s) = spanId s"
  "(spanRecorder (fire tid s) = None) = (spanRecorder s = None)"
  "finishWrappers (fire tid s) = finishWrappers s"
  "activities (fire tid s) = activities s"
  by (simp_all add: fire_def Let_def beat_fields finishIdleTransaction_fields clearTimeout_def
      split: option.splits prod.splits TimerAction.splits)

lemma step_invariant:
  assumes r: "spanRecorder s \<noteq> None"
    and a: "set (activities s) = U - {spanId s}"
    and d: "distinct (activities s)"
    and w: "\<forall>i\<in>U. 0 < finishWrappers s i"
  shows "spanRecorder (step s ev) \<noteq> None \<and> spanId (step s ev) = spanId s \<and>
         set (activities (step s ev)) = track U ev - {spanId s} \<and>
         distinct (activities (step s ev)) \<and>
         (\<forall>i\<in>track U ev. 0 < finishWrappers (step s ev) i)"
proof (cases ev)
  case (StartChild i)
  from r obtain rec where rec: "spanRecorder s = Some rec" by auto
  show ?thesis
    using a d w
    by (auto simp: StartChild startChild_def add_fields [OF rec] refId_def)
next
  case (FinishSpan i endTs)
  show ?thesis
    using r a d w
    by (auto simp: FinishSpan span_finish_fields distinct_removeAll)
next
  case (FinishTransaction endTs)
  show ?thesis
    using r a d w
    by (simp add: FinishTransaction this_finish_fields)
next
  case (Elapse n)
  show ?thesis
    using r a d w by (simp add: Elapse elapse_def)
next
  case (Fire tid)
  show ?thesis
    using r a d w by (simp add: Fire fire_fields)
qed

lemma run_invariant:
  "spanRecorder s \<noteq> None \<Longrightarrow> set (activities s) = U - {spanId s} \<Longrightarrow>
   distinct (activities s) \<Longrightarrow> \<forall>i\<in>U. 0 < finishWrappers s i \<Longrightarrow>
   set (activities (foldl step s evs)) = foldl track U evs - {spanId s} \<and>
   distinct (activities (foldl step s evs))"
proof (induction evs arbitrary: s U)
  case Nil
  then show ?case by simp
next
  case (Cons ev evs)
  from step_invariant [OF Cons.prems, of ev]
  have i: "spanRecorder (step s ev) \<noteq> None" "spanId (step s ev) = spanId s"
    "set (activities (step s ev)) = track U ev - {spanId (step s ev)}"
    "distinct (activities (step s ev))" "\<forall>i\<in>track U ev. 0 < finishWrappers (step s ev) i"
    by simp_all
  from Cons.IH [OF i(1) i(3) i(4) i(5)] show ?case
    by (simp add: i(2))
qed

lemma initial_state:
  "spanRecorder (initSpanRecorder m (IdleTransaction_new rid t c)) \<noteq> None"
  "spanId (initSpanRecorder m (IdleTransaction_new rid t c)) = rid"
  "activities (initSpanRecorder m (IdleTransaction_new rid t c)) = []"
  by (simp_all add: initSpanRecorder_def IdleTransaction_new_def pingHeartbeat_def
      setTimeout_def IdleTransactionSpanRecorder_add_def Let_def refId_def
      initSpanRecorder_pushActivity_def)

text \<open>
  C5. Take a transaction with its recorder attached and any sequence of events: children
  started through the recorder, spans finished, the transaction finished, time passing
  and timers running. At every point the activity set holds exactly the identifiers of
  the spans started and not finished since, without the identifier of the transaction
  itself; it holds each of them once, so its size is the number of these spans.
\<close>
theorem activities_mirror_unfinished:
  "set (activities (run (initSpanRecorder m (IdleTransaction_new rid t c)) evs)) =
     unfinished evs - {rid} \<and>
   length (activities (run (initSpanRecorder m (IdleTransaction_new rid t c)) evs)) =
     card (unfinished evs - {rid})"
proof -
  let ?s = "initSpanRecorder m (IdleTransaction_new rid t c)"
  have "set (activities (foldl step ?s evs)) = foldl track {} evs - {spanId ?s} \<and>
        distinct (activities (foldl step ?s evs))"
    by (rule run_invariant) (simp_all add: initial_state)
  then have s: "set (activities (run ?s evs)) = unfinished evs - {rid}"
    and d: "distinct (activities (run ?s evs))"
    by (simp_all add: run_def unfinished_def initial_state)
  from d have "card (set (activities (run ?s evs))) = length (activities (run ?s evs))"
    by (rule distinct_card)
  with s show ?thesis by simp
qed

section \<open>A new activity while the idle timer is pending\<close>

lemma finishCalls_finishIdleTransaction:
  "spanRecorder s = Some r \<Longrightarrow>
   finishCalls (finishIdleTransaction T s) = finishCalls s + 1"
  using filterSpans_log [of T "spanId s" "spans r"]
  by (simp add: observed_finishIdleTransaction finishCalls_def)

text \<open>
  C4, as the code has it. A pending idle timer is neither cancelled nor re-examined when
  a new child starts before it runs: the timer stays pending, and when it runs at its
  due time the finish path is entered with the end timestamp held by the timer,
  although the new activity is still in the activity set. The inherited finish is
  called.
\<close>
theorem stale_idle_timer_finishes:
  assumes t: "find (\<lambda>t. fst t = tid) (timers s) = Some (tid, due, FinishCallback e)"
    and r: "spanRecorder s = Some r"
    and i: "i \<noteq> spanId s"
    and c: "clock s \<le> due"
  shows "find (\<lambda>t. fst t = tid) (timers (startChild i s)) = Some (tid, due, FinishCallback e) \<and>
         i \<in> set (activities (startChild i s)) \<and>
         clock (elapse (due - clock s) (startChild i s)) = due \<and>
         fire tid (elapse (due - clock s) (startChild i s)) =
           finishIdleTransaction e
             (clearTimeout tid (elapse (due - clock s) (startChild i s))) \<and>
         i \<in> set (activities (fire tid (elapse (due - clock s) (startChild i s)))) \<and>
         finishCalls (fire tid (elapse (due - clock s) (startChild i s))) = finishCalls s + 1"
proof -
  let ?s1 = "startChild i s"
  let ?s2 = "elapse (due - clock s) ?s1"
  have f1: "timers ?s1 = timers s" "clock ?s1 = clock s" "observed ?s1 = observed s"
    "spanRecorder ?s1 \<noteq> None"
    by (simp_all add: startChild_def add_fields [OF r])
  have a1: "i \<in> set (activities ?s1)"
    using i by (simp add: startChild_def add_fields [OF r] refId_def)
  have f2: "timers ?s2 = timers s" "clock ?s2 = due" "observed ?s2 = observed s"
    "spanRecorder ?s2 \<noteq> None" "activities ?s2 = activities ?s1"
    using c f1 by (simp_all add: elapse_def)
  have fire: "fire tid ?s2 = finishIdleTransaction e (clearTimeout tid ?s2)"
    using t f2 by (simp add: fire_def)
  from f2 obtain r2 where r2: "spanRecorder (clearTimeout tid ?s2) = Some r2"
    by (auto simp: clearTimeout_def)
  have n: "finishCalls (fire tid ?s2) = finishCalls s + 1"
    unfolding fire
    by (simp add: finishCalls_finishIdleTransaction [OF r2])
       (simp add: finishCalls_def clearTimeout_def f2)
  have a2: "i \<in> set (activities (fire tid ?s2))"
    using a1 f2 by (simp add: fire_fields)
  from t f1 a1 f2 fire n a2 show ?thesis by simp
qed

theorem stale_idle_timer_finishes_witness:
  "find (\<lambda>t. fst t = 2)
     (timers (run (initSpanRecorder None (IdleTransaction_new ''r'' 1000 1000))
        [StartChild ''a'', Elapse 1000, FinishSpan ''a'' None, Elapse 500])) =
     Some (2, 3000, FinishCallback 3) \<and>
   clock (run (initSpanRecorder None (IdleTransaction_new ''r'' 1000 1000))
        [StartChild ''a'', Elapse 1000, FinishSpan ''a'' None, Elapse 500]) = 2500 \<and>
   ''b'' \<in> set (activities (fire 2 (elapse 500 (startChild ''b''
     (run (initSpanRecorder None (IdleTransaction_new ''r'' 1000 1000))
        [StartChild ''a'', Elapse 1000, FinishSpan ''a'' None, Elapse 500]))))) \<and>
   finishCalls (fire 2 (elapse 500 (startChild ''b''
     (run (initSpanRecorder None (IdleTransaction_new ''r'' 1000 1000))
        [StartChild ''a'', Elapse 1000, FinishSpan ''a'' None, Elapse 500])))) = 1"
proof -
  let ?s = "run (initSpanRecorder None (IdleTransaction_new ''r'' 1000 1000))
        [StartChild ''a'', Elapse 1000, FinishSpan ''a'' None, Elapse 500]"
  let ?r = "\<lparr>maxlen = None, spans = [This,
      Obj \<lparr>spanId = ''a'', startTimestamp = 1, endTimestamp = None, status = None\<rparr>]\<rparr>"
  have t: "find (\<lambda>t. fst t = 2) (timers ?s) = Some (2, 3000, FinishCallback 3)"
    by (simp add: model_defs)
  have r: "spanRecorder ?s = Some ?r"
    by (simp add: model_defs)
  have i: "''b'' \<noteq> spanId ?s"
    by (simp add: model_defs)
  have c: "clock ?s \<le> 3000" and c': "clock ?s = 2500" and n: "finishCalls ?s = 0"
    by (simp_all add: model_defs)
  have e: "3000 - clock ?s = 500"
    by (simp add: c')
  from stale_idle_timer_finishes [OF t r i c]
  have "''b'' \<in> set (activities (fire 2 (elapse (3000 - clock ?s) (startChild ''b'' ?s))))"
    and "finishCalls (fire 2 (elapse (3000 - clock ?s) (startChild ''b'' ?s))) =
           finishCalls ?s + 1"
    by blast+
  then have "''b'' \<in> set (activities (fire 2 (elapse 500 (startChild ''b'' ?s))))"
    and "finishCalls (fire 2 (elapse 500 (startChild ''b'' ?s))) = 1"
    by (simp_all only: e n)
  with t c' show ?thesis
    by blast
qed

text \<open>
  The claim as the specification states it fails. The child \<open>a\<close> ends at 2000 and the
  idle timer 2 is due at 3000. The child \<open>b\<close> starts at 2500 and is still open at 3000,
  when the timer runs: the spans of \<open>a\<close> and \<open>b\<close>, both without end timestamp, are
  cancelled and the transaction is finished.
\<close>

theorem stale_idle_timer_finishes_counterexample:
  "timers (run (initSpanRecorder None (IdleTransaction_new ''r'' 1000 1000))
     [StartChild ''a'', Elapse 1000, FinishSpan ''a'' None]) =
     [(1, 6000, BeatCallback), (2, 3000, FinishCallback 3)] \<and>
   activities (run (initSpanRecorder None (IdleTransaction_new ''r'' 1000 1000))
     [StartChild ''a'', Elapse 1000, FinishSpan ''a'' None, Elapse 500, StartChild ''b'',
      Elapse 500]) = [''b''] \<and>
   finishCalls (run (initSpanRecorder None (IdleTransaction_new ''r'' 1000 1000))
     [StartChild ''a'', Elapse 1000, FinishSpan ''a'' None, Elapse 500, StartChild ''b'',
      Elapse 500]) = 0 \<and>
   clock (run (initSpanRecorder None (IdleTransaction_new ''r'' 1000 1000))
     [StartChild ''a'', Elapse 1000, FinishSpan ''a'' None, Elapse 500, StartChild ''b'',
      Elapse 500, Fire 2]) = 3000 \<and>
   activities (run (initSpanRecorder None (IdleTransaction_new ''r'' 1000 1000))
     [StartChild ''a'', Elapse 1000, FinishSpan ''a'' None, Elapse 500, StartChild ''b'',
      Elapse 500, Fire 2]) = [''b''] \<and>
   observed (run (initSpanRecorder None (IdleTransaction_new ''r'' 1000 1000))
     [StartChild ''a'', Elapse 1000, FinishSpan ''a'' None, Elapse 500, StartChild ''b'',
      Elapse 500, Fire 2]) =
     [LogCancelling ''a'', LogCancelling ''b'', LogFlushing, FinishInvoked None] \<and>
   finishCalls (run (initSpanRecorder None (IdleTransaction_new ''r'' 1000 1000))
     [StartChild ''a'', Elapse 1000, FinishSpan ''a'' None, Elapse 500, StartChild ''b'',
      Elapse 500, Fire 2]) = 1"
  by (simp add: model_defs)

section \<open>What the finish path leaves in the recorder\<close>












end
